theory Spec2Isabelle
  imports Complex_Main
begin

section \<open>Strings and regular expressions as the program uses them\<close>

text \<open>
  The program (\<^verbatim>\<open>webvtt/structures.py\<close>) is regular-expression driven: every
  operation on timestamps, cue text and style blocks is a call of Python's \<^verbatim>\<open>re\<close>
  module on a fixed pattern. Strings are lists of characters with code points below 256;
  in that range the decimal digits of \<^verbatim>\<open>\d\<close> are \<^verbatim>\<open>0\<close>..\<^verbatim>\<open>9\<close> only.

  A pattern is a list of items, matched left to right by backtracking in the order of
  Python's engine: a greedy quantifier tries the longer alternative first, a lazy one the
  shorter one first, and the first complete match found wins.
\<close>

datatype cclass =
    Lit char            \<comment> \<open>an ordinary or escaped character\<close>
  | Dot                 \<comment> \<open>\<^verbatim>\<open>.\<close> without DOTALL: anything but line feed\<close>
  | Digit               \<comment> \<open>\<^verbatim>\<open>\d\<close>\<close>
  | Space               \<comment> \<open>\<^verbatim>\<open>\s\<close>\<close>
  | NotCh char          \<comment> \<open>\<^verbatim>\<open>[^c]\<close>\<close>
  | OneOf "char list"   \<comment> \<open>\<^verbatim>\<open>[abc]\<close>\<close>

definition is_digit :: "char \<Rightarrow> bool" where
  "is_digit c = (c \<in> set ''0123456789'')"

definition is_space :: "char \<Rightarrow> bool" where
  \<comment> \<open>Python's \<^verbatim>\<open>str.isspace\<close> on code points below 256; also what \<^verbatim>\<open>str.strip\<close> removes.\<close>
  "is_space c = (c \<in> set [CHR 0x09, CHR 0x0A, CHR 0x0B, CHR 0x0C, CHR 0x0D,
                           CHR 0x1C, CHR 0x1D, CHR 0x1E, CHR 0x1F, CHR 0x20,
                           CHR 0x85, CHR 0xA0])"

fun cmatch :: "cclass \<Rightarrow> char \<Rightarrow> bool" where
  "cmatch (Lit a) c = (c = a)"
| "cmatch Dot c = (c \<noteq> CHR 0x0A)"
| "cmatch Digit c = is_digit c"
| "cmatch Space c = is_space c"
| "cmatch (NotCh a) c = (c \<noteq> a)"
| "cmatch (OneOf as) c = (c \<in> set as)"

datatype item =
    Ch cclass               \<comment> \<open>one character of the class\<close>
  | StarG cclass            \<comment> \<open>\<^verbatim>\<open>x*\<close>, greedy\<close>
  | StarL cclass            \<comment> \<open>\<^verbatim>\<open>x*?\<close>, lazy\<close>
  | Opt "item list"         \<comment> \<open>\<^verbatim>\<open>(?:...)?\<close>, greedy\<close>
  | Grp nat "item list"     \<comment> \<open>capturing group number g\<close>
  | Close nat nat           \<comment> \<open>end of group g that was opened at the given offset\<close>

fun weight :: "item \<Rightarrow> nat" where
  "weight (Opt qs) = Suc (sum_list (map weight qs))"
| "weight (Grp g qs) = Suc (Suc (sum_list (map weight qs)))"
| "weight _ = 1"

type_synonym caps = "nat \<Rightarrow> (nat \<times> nat) option"

text \<open>
  \<open>bt ps s n cs\<close> matches the pattern \<open>ps\<close> at the head of \<open>s\<close>; \<open>n\<close> is the number
  of characters consumed so far and \<open>cs\<close> the groups captured so far (as offsets). The
  result is the end offset of the first match in backtracking order, with its groups.
\<close>

function bt :: "item list \<Rightarrow> string \<Rightarrow> nat \<Rightarrow> caps \<Rightarrow> (nat \<times> caps) option" where
  "bt [] s n cs = Some (n, cs)"
| "bt (Ch c # ps) [] n cs = None"
| "bt (Ch c # ps) (x # xs) n cs = (if cmatch c x then bt ps xs (Suc n) cs else None)"
| "bt (StarG c # ps) [] n cs = bt ps [] n cs"
| "bt (StarG c # ps) (x # xs) n cs =
     (if cmatch c x
      then (case bt (StarG c # ps) xs (Suc n) cs of
              Some r \<Rightarrow> Some r
            | None \<Rightarrow> bt ps (x # xs) n cs)
      else bt ps (x # xs) n cs)"
| "bt (StarL c # ps) [] n cs = bt ps [] n cs"
| "bt (StarL c # ps) (x # xs) n cs =
     (case bt ps (x # xs) n cs of
        Some r \<Rightarrow> Some r
      | None \<Rightarrow> (if cmatch c x then bt (StarL c # ps) xs (Suc n) cs else None))"
| "bt (Opt qs # ps) s n cs =
     (case bt (qs @ ps) s n cs of
        Some r \<Rightarrow> Some r
      | None \<Rightarrow> bt ps s n cs)"
| "bt (Grp g qs # ps) s n cs = bt (qs @ Close g n # ps) s n cs"
| "bt (Close g b # ps) s n cs = bt ps s n (cs(g := Some (b, n)))"
  by pat_completeness auto
termination
  by (relation "measures [\<lambda>(ps, s, n, cs). sum_list (map weight ps),
                          \<lambda>(ps, s, n, cs). length s]") auto

definition no_caps :: caps where
  "no_caps = (\<lambda>g. None)"

definition group :: "string \<Rightarrow> caps \<Rightarrow> nat \<Rightarrow> string option" where
  \<comment> \<open>\<^verbatim>\<open>m.group(g)\<close>: the text of group g, \<open>None\<close> when the group took no part.\<close>
  "group s cs g = (case cs g of
                     None \<Rightarrow> None
                   | Some (b, e) \<Rightarrow> Some (take (e - b) (drop b s)))"

definition re_match :: "item list \<Rightarrow> string \<Rightarrow> (nat \<times> caps) option" where
  \<comment> \<open>\<^verbatim>\<open>re.match\<close>: a match must begin at the first character.\<close>
  "re_match p s = bt p s 0 no_caps"


text \<open>
  \<^verbatim>\<open>re.sub\<close> with a function as replacement: scanning from the left, every match is
  replaced by the function's result on the match's groups and scanning resumes behind the
  match. (No pattern of this program matches the empty string; for an empty match the
  scan emits the replacement and moves one character on.)
\<close>

function re_sub :: "item list \<Rightarrow> ((nat \<Rightarrow> string option) \<Rightarrow> string) \<Rightarrow> string \<Rightarrow> string" where
  "re_sub p f [] =
     (case bt p [] 0 no_caps of
        None \<Rightarrow> []
      | Some (e, cs) \<Rightarrow> f (group [] cs))"
| "re_sub p f (x # xs) =
     (case bt p (x # xs) 0 no_caps of
        None \<Rightarrow> x # re_sub p f xs
      | Some (e, cs) \<Rightarrow>
          f (group (x # xs) cs) @
          (if e = 0 then x # re_sub p f xs else re_sub p f (drop e (x # xs))))"
  by pat_completeness auto
termination
  by (relation "measure (\<lambda>(p, f, s). length s)") auto

text \<open>
  \<^verbatim>\<open>findall\<close>: the groups of every match, scanning as \<^verbatim>\<open>re.sub\<close> does.
\<close>

function findall :: "item list \<Rightarrow> string \<Rightarrow> (nat \<Rightarrow> string option) list" where
  "findall p [] =
     (case bt p [] 0 no_caps of
        None \<Rightarrow> []
      | Some (e, cs) \<Rightarrow> [group [] cs])"
| "findall p (x # xs) =
     (case bt p (x # xs) 0 no_caps of
        None \<Rightarrow> findall p xs
      | Some (e, cs) \<Rightarrow>
          group (x # xs) cs #
          (if e = 0 then findall p xs else findall p (drop e (x # xs))))"
  by pat_completeness auto
termination
  by (relation "measure (\<lambda>(p, s). length s)") auto

definition lits :: "string \<Rightarrow> item list" where
  \<comment> \<open>a run of ordinary characters in a pattern\<close>
  "lits w = map (\<lambda>c. Ch (Lit c)) w"

section \<open>The timestamp codec\<close>

datatype error =
    MalformedCaptionError   \<comment> \<open>raised by \<^verbatim>\<open>_parse_timestamp\<close>\<close>
  | AttributeError          \<comment> \<open>raised by the \<^verbatim>\<open>text\<close> setter of a caption\<close>
  | UncoveredClassName      \<comment> \<open>a class name whose text is not ordinary in a pattern (see \<open>plain\<close>)\<close>

definition TIMESTAMP_PATTERN :: "item list" where
  \<comment> \<open>\<^verbatim>\<open>(\d+)?:?(\d{2}):(\d{2})[.,](\d{3})\<close>\<close>
  "TIMESTAMP_PATTERN =
     [Opt [Grp 1 [Ch Digit, StarG Digit]],
      Opt [Ch (Lit (CHR '':''))],
      Grp 2 [Ch Digit, Ch Digit],
      Ch (Lit (CHR '':'')),
      Grp 3 [Ch Digit, Ch Digit],
      Ch (OneOf ''.,''),
      Grp 4 [Ch Digit, Ch Digit, Ch Digit]]"

definition digit_val :: "char \<Rightarrow> nat" where
  "digit_val c = of_char c - of_char (CHR ''0'')"

definition py_int :: "string \<Rightarrow> nat" where
  \<comment> \<open>\<^verbatim>\<open>int(x)\<close> on a string of decimal digits\<close>
  "py_int ds = foldl (\<lambda>a c. 10 * a + digit_val c) 0 ds"

definition int_or_0 :: "string option \<Rightarrow> nat" where
  \<comment> \<open>\<^verbatim>\<open>int(x) if x else 0\<close>: a missing or empty group counts as 0\<close>
  "int_or_0 g = (case g of None \<Rightarrow> 0 | Some ds \<Rightarrow> if ds = [] then 0 else py_int ds)"

text \<open>
  Seconds are Python floats in the program; here they are exact rationals, so the
  arithmetic of the codec is modelled without binary rounding.
\<close>

definition to_seconds :: "nat \<Rightarrow> nat \<Rightarrow> nat \<Rightarrow> nat \<Rightarrow> rat" where
  "to_seconds hours minutes seconds milliseconds =
     of_nat hours * 3600 + of_nat minutes * 60 + of_nat seconds + of_nat milliseconds / 1000"

definition parse_timestamp :: "string \<Rightarrow> error + rat" where
  "parse_timestamp timestamp =
     (case re_match TIMESTAMP_PATTERN timestamp of
        None \<Rightarrow> Inl MalformedCaptionError
      | Some (e, cs) \<Rightarrow>
          (let g = group timestamp cs in
           Inr (to_seconds (int_or_0 (g 1)) (int_or_0 (g 2)) (int_or_0 (g 3)) (int_or_0 (g 4)))))"



definition digit_char :: "nat \<Rightarrow> char" where
  "digit_char d = ''0123456789'' ! (d mod 10)"

function dec :: "nat \<Rightarrow> string" where
  \<comment> \<open>the decimal digits of a non-negative integer, without padding\<close>
  "dec n = (if n < 10 then [digit_char n] else dec (n div 10) @ [digit_char (n mod 10)])"
  by pat_completeness auto
termination
  by (relation "measure (\<lambda>n. n)") auto

declare dec.simps [simp del]






section \<open>The cue model\<close>

record caption =
  start_seconds :: rat            \<comment> \<open>\<^verbatim>\<open>_start\<close>\<close>
  end_seconds :: rat              \<comment> \<open>\<^verbatim>\<open>_end\<close>\<close>
  cue_identifier :: "string option"   \<comment> \<open>\<^verbatim>\<open>identifier\<close>\<close>
  cue_lines :: "string list"      \<comment> \<open>\<^verbatim>\<open>_lines\<close>\<close>

fun join :: "string \<Rightarrow> string list \<Rightarrow> string" where
  \<comment> \<open>\<^verbatim>\<open>sep.join(xs)\<close>\<close>
  "join sep [] = []"
| "join sep [x] = x"
| "join sep (x # y # ys) = x @ sep @ join sep (y # ys)"

definition raw_text :: "caption \<Rightarrow> string" where
  "raw_text c = join [CHR 0x0A] (cue_lines c)"

definition CUE_TEXT_TAGS :: "item list" where
  \<comment> \<open>\<^verbatim>\<open><.*?>\<close>\<close>
  "CUE_TEXT_TAGS = [Ch (Lit (CHR ''<'')), StarL Dot, Ch (Lit (CHR ''>''))]"

definition clean_cue_tags :: "string \<Rightarrow> string" where
  "clean_cue_tags s = re_sub CUE_TEXT_TAGS (\<lambda>g. []) s"

definition cue_text :: "caption \<Rightarrow> string" where
  \<comment> \<open>the property \<^verbatim>\<open>text\<close> of a caption\<close>
  "cue_text c = clean_cue_tags (raw_text c)"

definition is_linebreak :: "char \<Rightarrow> bool" where
  \<comment> \<open>the line boundaries of \<^verbatim>\<open>str.splitlines\<close> below code point 256\<close>
  "is_linebreak c = (c \<in> set [CHR 0x0A, CHR 0x0B, CHR 0x0C, CHR 0x0D,
                               CHR 0x1C, CHR 0x1D, CHR 0x1E, CHR 0x85])"

fun split_go :: "string \<Rightarrow> string \<Rightarrow> string list" where
  \<comment> \<open>the first argument is the current line, reversed; CR LF counts as one boundary\<close>
  "split_go acc [] = (if acc = [] then [] else [rev acc])"
| "split_go acc [c] = (if is_linebreak c then [rev acc] else [rev (c # acc)])"
| "split_go acc (c # d # cs) =
     (if is_linebreak c
      then rev acc # (if c = CHR 0x0D \<and> d = CHR 0x0A then split_go [] cs else split_go [] (d # cs))
      else split_go (c # acc) (d # cs))"

definition splitlines :: "string \<Rightarrow> string list" where
  "splitlines s = split_go [] s"

datatype pyval =
    PyStr string
  | PyInt int
  | PyNone
  | PyBytes "nat list"
  | PyList "pyval list"

fun isinstance_str :: "pyval \<Rightarrow> bool" where
  "isinstance_str (PyStr s) = True"
| "isinstance_str v = False"

fun text_setter :: "pyval \<Rightarrow> caption \<Rightarrow> (error + unit) \<times> caption" where
  \<comment> \<open>the outcome of the call and the caption after it\<close>
  "text_setter (PyStr s) c = (Inr (), c\<lparr>cue_lines := splitlines s\<rparr>)"
| "text_setter v c = (Inl AttributeError, c)"

section \<open>The style extractor\<close>

record style =
  style_lines :: "string list"    \<comment> \<open>\<^verbatim>\<open>lines\<close> of a style block\<close>

definition strip :: "string \<Rightarrow> string" where
  \<comment> \<open>\<^verbatim>\<open>str.strip()\<close>\<close>
  "strip s = rev (dropWhile is_space (rev (dropWhile is_space s)))"

definition style_text :: "style \<Rightarrow> string" where
  "style_text st = concat (map strip (style_lines st))"

definition COLOURS_PATTERN :: "item list" where
  \<comment> \<open>\<^verbatim>\<open>::cue\(\.([^)]+)\)\s*{.*?color:(.*?);.*?}\<close>\<close>
  "COLOURS_PATTERN =
     lits ''::cue(.'' @
     [Grp 1 [Ch (NotCh (CHR '')'')), StarG (NotCh (CHR '')''))],
      Ch (Lit (CHR '')'')), StarG Space, Ch (Lit (CHR ''{'')), StarL Dot] @
     lits ''color:'' @
     [Grp 2 [StarL Dot], Ch (Lit (CHR '';'')), StarL Dot, Ch (Lit (CHR ''}''))]"

definition group_text :: "(nat \<Rightarrow> string option) \<Rightarrow> nat \<Rightarrow> string" where
  \<comment> \<open>an entry of a \<^verbatim>\<open>findall\<close> tuple: a group that took no part is the empty string\<close>
  "group_text g i = (case g i of None \<Rightarrow> [] | Some w \<Rightarrow> w)"

fun dict_set :: "('k \<times> 'v) list \<Rightarrow> 'k \<Rightarrow> 'v \<Rightarrow> ('k \<times> 'v) list" where
  \<comment> \<open>\<^verbatim>\<open>d[k] = v\<close> on a dict in insertion order: a known key keeps its place\<close>
  "dict_set [] k v = [(k, v)]"
| "dict_set ((k', v') # d) k v = (if k' = k then (k, v) # d else (k', v') # dict_set d k v)"

definition dict_of :: "('k \<times> 'v) list \<Rightarrow> ('k \<times> 'v) list" where
  \<comment> \<open>\<^verbatim>\<open>dict(pairs)\<close>\<close>
  "dict_of kvs = foldl (\<lambda>d (k, v). dict_set d k v) [] kvs"

definition colours_found :: "style \<Rightarrow> (string \<times> string) list" where
  \<comment> \<open>\<^verbatim>\<open>COLOURS_PATTERN.findall(self.text)\<close>: one pair of groups for each match\<close>
  "colours_found st =
     map (\<lambda>g. (group_text g 1, group_text g 2)) (findall COLOURS_PATTERN (style_text st))"

definition colours :: "style \<Rightarrow> (string \<times> string) list" where
  "colours st =
     (let colours_classes = map fst (colours_found st);
          colours_values = map (\<lambda>x. filter (\<lambda>c. c \<noteq> CHR '' '') (snd x)) (colours_found st)
      in dict_of (zip colours_classes colours_values))"

section \<open>The markup translator\<close>

text \<open>
  \<^verbatim>\<open>html.unescape\<close> is library code: text without \<^verbatim>\<open>&\<close> is returned as it is,
  anything else goes through the library's table of character references, which is a
  parameter here.
\<close>

definition html_unescape :: "(string \<Rightarrow> string) \<Rightarrow> string \<Rightarrow> string" where
  "html_unescape charref_sub s = (if CHR ''&'' \<notin> set s then s else charref_sub s)"










definition cue :: "string list \<Rightarrow> caption" where
  \<comment> \<open>a caption with the given lines, at time zero\<close>
  "cue ls = \<lparr>start_seconds = 0, end_seconds = 0, cue_identifier = None, cue_lines = ls\<rparr>"

section \<open>What it means to match, independent of the search order\<close>

text \<open>
  \<open>accepts ps w\<close>: the whole of \<open>w\<close> is a match of the pattern \<open>ps\<close>, by any choice at
  the quantifiers.
\<close>

fun accepts :: "item list \<Rightarrow> string \<Rightarrow> bool" where
  "accepts [] s = (s = [])"
| "accepts (Ch c # ps) [] = False"
| "accepts (Ch c # ps) (x # xs) = (cmatch c x \<and> accepts ps xs)"
| "accepts (StarG c # ps) [] = accepts ps []"
| "accepts (StarG c # ps) (x # xs) =
     (accepts ps (x # xs) \<or> cmatch c x \<and> accepts (StarG c # ps) xs)"
| "accepts (StarL c # ps) [] = accepts ps []"
| "accepts (StarL c # ps) (x # xs) =
     (accepts ps (x # xs) \<or> cmatch c x \<and> accepts (StarL c # ps) xs)"
| "accepts (Opt qs # ps) s = (accepts (qs @ ps) s \<or> accepts ps s)"
| "accepts (Grp g qs # ps) s = accepts (qs @ ps) s"
| "accepts (Close g b # ps) s = accepts ps s"






section \<open>Tag stripping, described without a pattern\<close>

text \<open>
  \<open>gt_index s\<close> is the number of characters before the first \<^verbatim>\<open>>\<close> of \<open>s\<close>;
  \<open>gt_index_line\<close> is the same, provided no line feed comes before that \<^verbatim>\<open>>\<close>.
\<close>

fun gt_index :: "string \<Rightarrow> nat option" where
  "gt_index [] = None"
| "gt_index (x # xs) = (if x = CHR ''>'' then Some 0 else map_option Suc (gt_index xs))"

fun gt_index_line :: "string \<Rightarrow> nat option" where
  "gt_index_line [] = None"
| "gt_index_line (x # xs) =
     (if x = CHR ''>'' then Some 0
      else if x = CHR 0x0A then None
      else map_option Suc (gt_index_line xs))"

text \<open>
  \<open>remove_tags\<close> follows the words of the specification: from the left, every
  \<^verbatim>\<open><\<close> that has a \<^verbatim>\<open>>\<close> behind it is removed together with everything up to the
  nearest such \<^verbatim>\<open>>\<close>. \<open>remove_line_tags\<close> does so only when the \<^verbatim>\<open>>\<close> is on the same
  line.
\<close>

function remove_tags :: "string \<Rightarrow> string" where
  "remove_tags [] = []"
| "remove_tags (x # xs) =
     (if x = CHR ''<''
      then (case gt_index xs of
              Some k \<Rightarrow> remove_tags (drop (Suc k) xs)
            | None \<Rightarrow> x # remove_tags xs)
      else x # remove_tags xs)"
  by pat_completeness auto
termination
  by (relation "measure length") auto

function remove_line_tags :: "string \<Rightarrow> string" where
  "remove_line_tags [] = []"
| "remove_line_tags (x # xs) =
     (if x = CHR ''<''
      then (case gt_index_line xs of
              Some k \<Rightarrow> remove_line_tags (drop (Suc k) xs)
            | None \<Rightarrow> x # remove_line_tags xs)
      else x # remove_line_tags xs)"
  by pat_completeness auto
termination
  by (relation "measure length") auto

definition has_line_tag :: "string \<Rightarrow> bool" where
  \<comment> \<open>somewhere in the text a \<^verbatim>\<open><\<close> has a \<^verbatim>\<open>>\<close> behind it on the same line\<close>
  "has_line_tag s = (\<exists>u v. s = u @ CHR ''<'' # v \<and> gt_index_line v \<noteq> None)"

section \<open>Spans of cue markup, described without a pattern\<close>


definition qualifier :: "string \<Rightarrow> bool" where
  \<comment> \<open>nothing, or dotted class names: a dot first, and inside the opening tag
      (no \<^verbatim>\<open><\<close>, \<^verbatim>\<open>>\<close> or line feed)\<close>
  "qualifier q =
     ((q = [] \<or> hd q = CHR ''.'') \<and>
      CHR ''<'' \<notin> set q \<and> CHR ''>'' \<notin> set q \<and> CHR 0x0A \<notin> set q)"

definition font_span :: "(string \<Rightarrow> string) \<Rightarrow> string \<Rightarrow> string \<Rightarrow> string \<Rightarrow> string" where
  \<comment> \<open>what the specification puts in the place of a span of the given family, colour
      and content\<close>
  "font_span charref_sub tag v b =
     (if tag = ''c''
      then ''<font color=\"'' @ v @ ''\">'' @ html_unescape charref_sub b @ ''</font>''
      else ''<'' @ tag @ ''>'' @ ''<font color=\"'' @ v @ ''\">'' @ html_unescape charref_sub b @
           ''</font>'' @ ''</'' @ tag @ ''>'')"

fun dead :: "string \<Rightarrow> bool" where
  \<comment> \<open>no \<^verbatim>\<open><\<close> comes behind a \<^verbatim>\<open>>\<close>: no closing tag can follow an opening one\<close>
  "dead [] = True"
| "dead (x # xs) = ((x = CHR ''>'' \<longrightarrow> CHR ''<'' \<notin> set xs) \<and> dead xs)"

text \<open>
  The pattern of a class-tagged span, from its end: the close of the opening tag with
  the content and the closing tag; the optional qualifier before that; the class name
  before that.
\<close>

definition closing :: "string \<Rightarrow> string" where
  \<comment> \<open>the closing tag \<^verbatim>\<open></TAG>\<close>\<close>
  "closing tag = ''</'' @ tag @ ''>''"

definition span_tail :: "string \<Rightarrow> item list" where
  \<comment> \<open>\<^verbatim>\<open>>(.*?)</TAG>\<close>\<close>
  "span_tail tag = Ch (Lit (CHR ''>'')) # Grp 1 [StarL Dot] # lits (closing tag)"

definition span_qual :: "string \<Rightarrow> item list" where
  \<comment> \<open>\<^verbatim>\<open>(?:\..*?)?>(.*?)</TAG>\<close>\<close>
  "span_qual tag = Opt [Ch (Lit (CHR ''.'')), StarL Dot] # span_tail tag"

definition span_class :: "string \<Rightarrow> string \<Rightarrow> item list" where
  \<comment> \<open>\<^verbatim>\<open>\.CLASS(?:\..*?)?>(.*?)</TAG>\<close>\<close>
  "span_class tag k = lits (CHR ''.'' # k) @ span_qual tag"

definition span_end :: "nat \<Rightarrow> string \<Rightarrow> string \<Rightarrow> caps \<Rightarrow> (nat \<times> caps) option" where
  \<comment> \<open>the match of a span whose opening tag closes at offset gp and whose content is b\<close>
  "span_end gp tag b cs =
     Some (gp + 1 + length b + length (closing tag), cs(1 := Some (gp + 1, gp + 1 + length b)))"

section \<open>The matcher against the language of a pattern\<close>

lemma accepts_close: "accepts (qs @ Close g b # ps) s = accepts (qs @ ps) s"
  by (induction qs s rule: accepts.induct) auto

lemma ex_take_Cons: "(\<exists>k. P (take k (x # xs))) \<longleftrightarrow> P [] \<or> (\<exists>k. P (x # take k xs))"
proof
  assume "\<exists>k. P (take k (x # xs))"
  then obtain k where k: "P (take k (x # xs))" ..
  show "P [] \<or> (\<exists>k. P (x # take k xs))"
  proof (cases k)
    case 0
    with k show ?thesis by simp
  next
    case (Suc j)
    with k show ?thesis by auto
  qed
next
  assume "P [] \<or> (\<exists>k. P (x # take k xs))"
  then show "\<exists>k. P (take k (x # xs))"
  proof
    assume "P []"
    then have "P (take 0 (x # xs))" by simp
    then show ?thesis ..
  next
    assume "\<exists>k. P (x # take k xs)"
    then obtain k where "P (x # take k xs)" ..
    then have "P (take (Suc k) (x # xs))" by simp
    then show ?thesis ..
  qed
qed

text \<open>
  The backtracking search finds a match exactly when some prefix of the subject is in
  the language of the pattern.
\<close>

lemma bt_accepts: "bt ps s n cs \<noteq> None \<longleftrightarrow> (\<exists>k. accepts ps (take k s))"
proof (induction ps s n cs rule: bt.induct)
  case (3 c ps x xs n cs)
  then show ?case by (simp add: ex_take_Cons)
next
  case (5 c ps x xs n cs)
  then show ?case by (auto simp add: ex_take_Cons split: option.splits)
next
  case (7 c ps x xs n cs)
  then show ?case by (auto simp add: ex_take_Cons split: option.splits)
next
  case (8 qs ps s n cs)
  then show ?case by (auto split: option.splits)
next
  case (9 g qs ps s n cs)
  then show ?case by (simp add: accepts_close)
next
  case (10 g b ps s n cs)
  then show ?case by (simp only: bt.simps accepts.simps)
qed auto

subsection \<open>Runs of a starred class\<close>



lemma starL_skip:
  "\<forall>x\<in>set xs. cmatch c x \<and> (\<forall>t m. bt ps (x # t) m cs = None) \<Longrightarrow>
   bt (StarL c # ps) (xs @ ys) n cs = bt (StarL c # ps) ys (n + length xs) cs"
  by (induction xs arbitrary: n) (auto split: option.splits)

section \<open>Parsing timestamps\<close>










lemma ex_take_prefix: "(\<exists>k. P (take k s)) \<longleftrightarrow> (\<exists>w v. s = w @ v \<and> P w)"
proof
  assume "\<exists>k. P (take k s)"
  then obtain k where "P (take k s)" ..
  then have "s = take k s @ drop k s \<and> P (take k s)" by simp
  then show "\<exists>w v. s = w @ v \<and> P w" by blast
next
  assume "\<exists>w v. s = w @ v \<and> P w"
  then obtain w v where "s = w @ v" "P w" by blast
  then have "P (take (length w) s)" by simp
  then show "\<exists>k. P (take k s)" ..
qed





text \<open>
  C4, as stated: the error is raised if and only if no substring of the input matches.
  It fails: a timestamp behind another character is a matching substring, and parsing
  raises the error all the same.
\<close>

theorem parse_timestamp_substring_counterexample:
  "parse_timestamp ''x01:02:03.456'' = Inl MalformedCaptionError \<and>
   ''x01:02:03.456'' = ''x'' @ ''01:02:03.456'' @ [] \<and>
   accepts TIMESTAMP_PATTERN ''01:02:03.456''"
  by (simp add: parse_timestamp_def re_match_def TIMESTAMP_PATTERN_def is_digit_def)

text \<open>
  C4, amended: the error is raised if and only if no prefix of the input matches the
  pattern. The match has to begin at the first character and may end anywhere.
\<close>

theorem parse_timestamp_error_iff:
  "parse_timestamp ts = Inl MalformedCaptionError \<longleftrightarrow>
   \<not> (\<exists>w v. ts = w @ v \<and> accepts TIMESTAMP_PATTERN w)"
proof -
  have "parse_timestamp ts = Inl MalformedCaptionError \<longleftrightarrow> bt TIMESTAMP_PATTERN ts 0 no_caps = None"
    by (simp add: parse_timestamp_def re_match_def Let_def split: option.splits)
  also have "\<dots> \<longleftrightarrow> \<not> (\<exists>k. accepts TIMESTAMP_PATTERN (take k ts))"
    using bt_accepts [of TIMESTAMP_PATTERN ts 0 no_caps] by blast
  finally show ?thesis by (simp only: ex_take_prefix)
qed

theorem parse_timestamp_error_iff_witness:
  "parse_timestamp ''bad'' = Inl MalformedCaptionError \<and>
   \<not> (\<exists>w v. ''bad'' = w @ v \<and> accepts TIMESTAMP_PATTERN w) \<and>
   parse_timestamp ''01:02:03.456 --> x'' = Inr (3723456 / 1000) \<and>
   (\<exists>w v. ''01:02:03.456 --> x'' = w @ v \<and> accepts TIMESTAMP_PATTERN w)"
proof -
  have a: "parse_timestamp ''bad'' = Inl MalformedCaptionError"
    by (simp add: parse_timestamp_def re_match_def TIMESTAMP_PATTERN_def is_digit_def)
  have b: "parse_timestamp ''01:02:03.456 --> x'' = Inr (3723456 / 1000)"
    by (simp add: parse_timestamp_def re_match_def TIMESTAMP_PATTERN_def is_digit_def
        group_def no_caps_def int_or_0_def py_int_def digit_val_def to_seconds_def)
  from b have c: "parse_timestamp ''01:02:03.456 --> x'' \<noteq> Inl MalformedCaptionError" by simp
  show ?thesis
    using a b c parse_timestamp_error_iff [of "''bad''"]
      parse_timestamp_error_iff [of "''01:02:03.456 --> x''"]
    by blast
qed

section \<open>The text setter\<close>

lemma split_go_no_break:
  "\<forall>ch\<in>set acc. \<not> is_linebreak ch \<Longrightarrow> l \<in> set (split_go acc s) \<Longrightarrow> \<forall>ch\<in>set l. \<not> is_linebreak ch"
proof (induction acc s rule: split_go.induct)
  case (1 acc)
  from "1.prems"(2) have "l = rev acc" by (simp split: if_splits)
  with "1.prems"(1) show ?case by simp
next
  case (2 acc c)
  from "2.prems"(2) have "l = rev acc \<or> l = rev (c # acc) \<and> \<not> is_linebreak c"
    by (simp split: if_splits)
  with "2.prems"(1) show ?case by auto
next
  case (3 acc c d cs)
  show ?case
  proof (cases "is_linebreak c")
    case False
    from False "3.prems"(2) have m: "l \<in> set (split_go (c # acc) (d # cs))" by simp
    from False "3.prems"(1) have a: "\<forall>ch\<in>set (c # acc). \<not> is_linebreak ch" by simp
    from "3.IH"(3) [OF False a m] show ?thesis .
  next
    case True
    have e: "\<forall>ch\<in>set []. \<not> is_linebreak ch" by simp
    show ?thesis
    proof (cases "c = CHR 0x0D \<and> d = CHR 0x0A")
      case True
      with \<open>is_linebreak c\<close> "3.prems"(2) have "l = rev acc \<or> l \<in> set (split_go [] cs)" by simp
      then show ?thesis
      proof
        assume "l = rev acc"
        with "3.prems"(1) show ?thesis by simp
      next
        assume "l \<in> set (split_go [] cs)"
        from "3.IH"(1) [OF \<open>is_linebreak c\<close> True e this] show ?thesis .
      qed
    next
      case False
      with \<open>is_linebreak c\<close> "3.prems"(2) have "l = rev acc \<or> l \<in> set (split_go [] (d # cs))" by auto
      then show ?thesis
      proof
        assume "l = rev acc"
        with "3.prems"(1) show ?thesis by simp
      next
        assume "l \<in> set (split_go [] (d # cs))"
        from "3.IH"(2) [OF \<open>is_linebreak c\<close> False e this] show ?thesis .
      qed
    qed
  qed
qed

lemma split_go_concat:
  "concat (split_go acc s) = rev acc @ filter (\<lambda>ch. \<not> is_linebreak ch) s"
  by (induction acc s rule: split_go.induct) (auto simp: is_linebreak_def)

text \<open>
  C8. Setting the text fails with the setter's error exactly when the value is not a
  string, and then the caption is as before; a string replaces all lines by its pieces
  between line breaks, none of which holds a line break.
\<close>

theorem text_setter_contract:
  "(fst (text_setter v c) = Inl AttributeError \<longleftrightarrow> \<not> isinstance_str v) \<and>
   (\<forall>e. fst (text_setter v c) = Inl e \<longrightarrow> snd (text_setter v c) = c) \<and>
   (\<forall>s. v = PyStr s \<longrightarrow>
      text_setter v c = (Inr (), c\<lparr>cue_lines := splitlines s\<rparr>) \<and>
      (\<forall>l\<in>set (splitlines s). \<forall>ch\<in>set l. \<not> is_linebreak ch) \<and>
      concat (splitlines s) = filter (\<lambda>ch. \<not> is_linebreak ch) s)"
proof (cases v)
  case (PyStr s)
  have e: "\<forall>ch\<in>set []. \<not> is_linebreak ch" by simp
  have "\<forall>l\<in>set (splitlines s). \<forall>ch\<in>set l. \<not> is_linebreak ch"
    unfolding splitlines_def
  proof
    fix l
    assume "l \<in> set (split_go [] s)"
    from split_go_no_break [OF e this] show "\<forall>ch\<in>set l. \<not> is_linebreak ch" .
  qed
  moreover have "concat (splitlines s) = filter (\<lambda>ch. \<not> is_linebreak ch) s"
    by (simp add: splitlines_def split_go_concat)
  ultimately show ?thesis using PyStr by simp
qed simp_all

theorem text_setter_contract_witness:
  "text_setter (PyInt 3) (cue [''old'']) = (Inl AttributeError, cue [''old'']) \<and>
   text_setter PyNone (cue [''old'']) = (Inl AttributeError, cue [''old'']) \<and>
   text_setter (PyStr ''one\<newline>two'') (cue [''old'']) = (Inr (), cue [''one'', ''two''])"
  using text_setter_contract [of "PyInt 3" "cue [''old'']"]
    text_setter_contract [of "PyStr ''one\<newline>two''" "cue [''old'']"]
  by (simp add: cue_def splitlines_def is_linebreak_def)

section \<open>Colours of a style block\<close>

lemma map_of_dict_set: "map_of (dict_set d k v) = (map_of d)(k \<mapsto> v)"
  by (induction d) auto

lemma keys_dict_set: "fst ` set (dict_set d k v) = insert k (fst ` set d)"
  by (induction d k v rule: dict_set.induct) auto

lemma distinct_dict_set: "distinct (map fst d) \<Longrightarrow> distinct (map fst (dict_set d k v))"
  by (induction d k v rule: dict_set.induct) (auto simp: keys_dict_set)

lemma map_of_foldl_dict_set:
  "map_of (foldl (\<lambda>d (k, v). dict_set d k v) d kvs) = map_of d ++ map_of (rev kvs)"
  by (induction kvs arbitrary: d) (auto simp: map_of_dict_set)

lemma distinct_foldl_dict_set:
  "distinct (map fst d) \<Longrightarrow> distinct (map fst (foldl (\<lambda>d (k, v). dict_set d k v) d kvs))"
  by (induction kvs arbitrary: d) (auto simp: distinct_dict_set)

lemma map_of_rev_last:
  "map_of (rev kvs) k =
     (case filter (\<lambda>m. fst m = k) kvs of [] \<Rightarrow> None | m # ms \<Rightarrow> Some (snd (last (m # ms))))"
  by (induction kvs rule: rev_induct) (auto split: list.splits)

lemma dict_of_last:
  "map_of (dict_of kvs) k =
     (case filter (\<lambda>m. fst m = k) kvs of [] \<Rightarrow> None | m # ms \<Rightarrow> Some (snd (last (m # ms))))"
  by (simp add: dict_of_def map_of_foldl_dict_set map_of_rev_last)

lemma zip_fst_map: "zip (map fst xs) (map (\<lambda>x. f (snd x)) xs) = map (\<lambda>x. (fst x, f (snd x))) xs"
  by (induction xs) auto

text \<open>
  C9. The colour of a class in the mapping is the colour of the last rule for that class
  among the matches in text order (spaces removed), and a class without a rule has none;
  no class is listed twice.
\<close>

theorem colours_last_wins:
  "map_of (colours st) k =
     (case filter (\<lambda>m. fst m = k) (colours_found st) of
        [] \<Rightarrow> None
      | m # ms \<Rightarrow> Some (filter (\<lambda>c. c \<noteq> CHR '' '') (snd (last (m # ms))))) \<and>
   distinct (map fst (colours st))"
proof -
  let ?f = "filter (\<lambda>c. c \<noteq> CHR '' '')"
  let ?kvs = "map (\<lambda>x. (fst x, ?f (snd x))) (colours_found st)"
  have c: "colours st = dict_of ?kvs"
    by (simp add: colours_def zip_fst_map)
  have f: "filter (\<lambda>m. fst m = k) ?kvs = map (\<lambda>x. (fst x, ?f (snd x))) (filter (\<lambda>m. fst m = k) (colours_found st))"
    by (induction "colours_found st") (auto simp: filter_map o_def)
  have "map_of (colours st) k =
     (case filter (\<lambda>m. fst m = k) (colours_found st) of
        [] \<Rightarrow> None
      | m # ms \<Rightarrow> Some (?f (snd (last (m # ms)))))"
    unfolding c dict_of_last f
    by (cases "filter (\<lambda>m. fst m = k) (colours_found st)") (simp_all add: last_map)
  moreover have "distinct (map fst (colours st))"
    unfolding c dict_of_def by (rule distinct_foldl_dict_set) simp
  ultimately show ?thesis ..
qed


theorem colours_last_wins_witness:
  "colours_found \<lparr>style_lines = [''::cue(.a) { color: red; }'', ''::cue(.b){color:blue;}'',
       '' ::cue(.a){color: #0f0;} '']\<rparr> =
     [(''a'', '' red''), (''b'', ''blue''), (''a'', '' #0f0'')] \<and>
   map_of (colours \<lparr>style_lines = [''::cue(.a) { color: red; }'', ''::cue(.b){color:blue;}'',
       '' ::cue(.a){color: #0f0;} '']\<rparr>) ''a'' = Some ''#0f0''"
proof -
  let ?st = "\<lparr>style_lines = [''::cue(.a) { color: red; }'', ''::cue(.b){color:blue;}'',
       '' ::cue(.a){color: #0f0;} '']\<rparr>"
  have f: "colours_found ?st = [(''a'', '' red''), (''b'', ''blue''), (''a'', '' #0f0'')]"
    by (simp add: colours_found_def style_text_def strip_def is_space_def COLOURS_PATTERN_def
        lits_def group_def group_text_def no_caps_def)
  show ?thesis
    using colours_last_wins [of ?st "''a''"] by (simp add: f)
qed

section \<open>Formatting timestamps\<close>

subsection \<open>Decimal digits\<close>





lemma dec_nonempty: "dec n \<noteq> []"
  by (subst dec.simps) simp











subsection \<open>Rounding to milliseconds\<close>





subsection \<open>The fields of a formatted timestamp\<close>



















section \<open>Stripping tags\<close>

lemma bt_lazy_gt:
  "bt [StarL Dot, Ch (Lit (CHR ''>''))] xs n cs = map_option (\<lambda>k. (n + k + 1, cs)) (gt_index_line xs)"
  by (induction xs arbitrary: n) (auto simp: option.map_comp o_def split: option.splits)

lemma bt_cue_tag:
  "bt CUE_TEXT_TAGS (x # xs) 0 cs =
     (if x = CHR ''<'' then map_option (\<lambda>k. (k + 2, cs)) (gt_index_line xs) else None)"
  by (simp add: CUE_TEXT_TAGS_def bt_lazy_gt o_def)

lemma bt_cue_tag_Nil: "bt CUE_TEXT_TAGS [] 0 cs = None"
  by (simp add: CUE_TEXT_TAGS_def)

lemma clean_cue_tags_eq: "clean_cue_tags s = remove_line_tags s"
  unfolding clean_cue_tags_def
  by (induction s rule: remove_line_tags.induct)
    (auto simp: bt_cue_tag bt_cue_tag_Nil split: option.splits)

lemma gt_index_line_removed:
  "gt_index_line xs = None \<Longrightarrow> gt_index_line (remove_line_tags xs) = None"
  by (induction xs) (auto split: if_splits)

lemma has_line_tag_Cons:
  "has_line_tag (x # xs) \<longleftrightarrow> (x = CHR ''<'' \<and> gt_index_line xs \<noteq> None) \<or> has_line_tag xs"
proof
  assume "has_line_tag (x # xs)"
  then obtain u v where uv: "x # xs = u @ CHR ''<'' # v" "gt_index_line v \<noteq> None"
    unfolding has_line_tag_def by blast
  show "(x = CHR ''<'' \<and> gt_index_line xs \<noteq> None) \<or> has_line_tag xs"
  proof (cases u)
    case Nil
    with uv show ?thesis by simp
  next
    case (Cons a u')
    with uv have "xs = u' @ CHR ''<'' # v" by simp
    with uv(2) show ?thesis unfolding has_line_tag_def by blast
  qed
next
  assume "(x = CHR ''<'' \<and> gt_index_line xs \<noteq> None) \<or> has_line_tag xs"
  then show "has_line_tag (x # xs)"
  proof
    assume "x = CHR ''<'' \<and> gt_index_line xs \<noteq> None"
    then have "x # xs = [] @ CHR ''<'' # xs \<and> gt_index_line xs \<noteq> None" by simp
    then show ?thesis unfolding has_line_tag_def by blast
  next
    assume "has_line_tag xs"
    then obtain u v where "xs = u @ CHR ''<'' # v" "gt_index_line v \<noteq> None"
      unfolding has_line_tag_def by blast
    then have "x # xs = (x # u) @ CHR ''<'' # v \<and> gt_index_line v \<noteq> None" by simp
    then show ?thesis unfolding has_line_tag_def by blast
  qed
qed

lemma has_line_tag_Nil: "\<not> has_line_tag []"
  by (simp add: has_line_tag_def)

lemma remove_line_tags_clean: "\<not> has_line_tag (remove_line_tags s)"
proof (induction s rule: remove_line_tags.induct)
  case 1
  show ?case by (simp add: has_line_tag_Nil)
next
  case (2 x xs)
  show ?case
  proof (cases "x = CHR ''<''")
    case False
    with 2 show ?thesis by (simp add: has_line_tag_Cons)
  next
    case True
    show ?thesis
    proof (cases "gt_index_line xs")
      case None
      with True 2 gt_index_line_removed [OF None] show ?thesis
        by (simp add: has_line_tag_Cons)
    next
      case (Some k)
      with True 2 show ?thesis by simp
    qed
  qed
qed

text \<open>
  C7, as stated: the text is the raw text without every \<^verbatim>\<open><...>\<close>, whatever is
  between the brackets. It fails for a tag that runs over a line break: the pattern's
  dot does not match a line feed, and the tag stays.
\<close>

theorem cue_text_counterexample:
  "raw_text (cue [''<a'', ''b>'']) = ''<a\<newline>b>'' \<and>
   cue_text (cue [''<a'', ''b>'']) = ''<a\<newline>b>'' \<and>
   remove_tags (raw_text (cue [''<a'', ''b>''])) = []"
  by (simp add: cue_def raw_text_def cue_text_def clean_cue_tags_def CUE_TEXT_TAGS_def)

text \<open>
  C7, amended: the text is the raw text without every \<^verbatim>\<open><...>\<close> that lies within
  one line, each taken from its \<^verbatim>\<open><\<close> to the nearest \<^verbatim>\<open>>\<close>; no such bracket pair is
  left in it.
\<close>

theorem cue_text_strips_line_tags:
  "cue_text c = remove_line_tags (raw_text c) \<and> \<not> has_line_tag (cue_text c)"
  by (simp add: cue_text_def clean_cue_tags_eq remove_line_tags_clean)

theorem cue_text_strips_line_tags_witness:
  "cue_text (cue [''<v Bob>Hi <b class=x>you</b>'', ''a < b'']) = ''Hi you\<newline>a < b'' \<and>
   remove_line_tags (raw_text (cue [''<v Bob>Hi <b class=x>you</b>'', ''a < b''])) =
     ''Hi you\<newline>a < b''"
proof -
  have "remove_line_tags (raw_text (cue [''<v Bob>Hi <b class=x>you</b>'', ''a < b''])) =
     ''Hi you\<newline>a < b''"
    by (simp add: cue_def raw_text_def)
  with cue_text_strips_line_tags [of "cue [''<v Bob>Hi <b class=x>you</b>'', ''a < b'']"]
  show ?thesis by simp
qed

section \<open>Searching and substituting\<close>

lemma bt_lits:
  "bt (lits w @ ps) s n cs =
     (if take (length w) s = w then bt ps (drop (length w) s) (n + length w) cs else None)"
proof (induction w arbitrary: s n)
  case Nil
  show ?case by (simp add: lits_def)
next
  case (Cons a w)
  show ?case
  proof (cases s)
    case Nil
    then show ?thesis by (simp add: lits_def)
  next
    case (Cons x xs)
    with Cons.IH [of xs "Suc n"] show ?thesis by (auto simp: lits_def)
  qed
qed







section \<open>When the translator falls back to the plain text\<close>



















end
